theory Spec2Isabelle
  imports Main
begin

unbundle bit_operations_syntax

section \<open>The SERV test firmware: bus transport, loader and diagnostic suite\<close>

text \<open>
  A shallow embedding of \<^verbatim>\<open>firmware/microPython/serv.py\<close>. The firmware drives an FPGA
  over SPI: every memory write is one chip-select burst of five bytes, every status read
  one burst of a single byte. Python integers are unbounded, so addresses, data words and
  clock readings are \<^typ>\<open>int\<close>; loop counters and list positions are \<^typ>\<open>nat\<close>.
\<close>

subsection \<open>Errors, bus events and the hardware state\<close>

text \<open>
  The exceptions the firmware can meet. All three are subclasses of Python's
  \<^verbatim>\<open>Exception\<close>, the class that \<^verbatim>\<open>run_all_tests\<close> catches. \<open>ValueError\<close> is what
  \<^verbatim>\<open>bytes([...])\<close> raises for an element outside \<^verbatim>\<open>range(0, 256)\<close>, \<open>ZeroDivisionError\<close>
  what \<^verbatim>\<open>/\<close> raises for a zero divisor; \<open>OtherError\<close> carries the text of any other one.
\<close>

datatype error = ValueError | ZeroDivisionError | OtherError string

text \<open>
  What the firmware does to the hardware, one event per call on \<^verbatim>\<open>machine.SPI\<close>,
  \<^verbatim>\<open>machine.Pin\<close> or \<^verbatim>\<open>time.sleep_*\<close>, in program order.
\<close>

datatype event =
    SpiInit int int
  | PinInit int
  | CsValue int
  | SleepUs int
  | SleepMs int
  | SpiWrite "int list"
  | SpiRead int

text \<open>
  The hardware as the firmware sees it. \<open>trace\<close> is the log of events so far. The two
  inputs of the environment are functions of a call counter: \<open>miso k\<close> is the bytes object
  that the \<open>k\<close>-th call of \<^verbatim>\<open>spi.read\<close> returns, \<open>ticks k\<close> the value of the \<open>k\<close>-th call of
  \<^verbatim>\<open>time.ticks_ms\<close>. \<open>errlog\<close> holds the lines \<^verbatim>\<open>"<name> ERROR: <e>"\<close> that
  \<^verbatim>\<open>run_all_tests\<close> prints, as pairs of the check's name and the error; the rest of the
  console output carries no data of the run and is left out.
\<close>

record world =
  trace :: "event list"
  miso :: "nat \<Rightarrow> int list"
  nreads :: nat
  ticks :: "nat \<Rightarrow> int"
  nticks :: nat
  errlog :: "(string \<times> error) list"

type_synonym 'a result = "(error + 'a) \<times> world"

definition emit :: "event \<Rightarrow> world \<Rightarrow> world" where
  "emit e w = w\<lparr>trace := trace w @ [e]\<rparr>"

definition cs_value :: "int \<Rightarrow> world \<Rightarrow> world" where
  "cs_value v = emit (CsValue v)"

definition sleep_us :: "int \<Rightarrow> world \<Rightarrow> world" where
  "sleep_us n = emit (SleepUs n)"

definition sleep_ms :: "int \<Rightarrow> world \<Rightarrow> world" where
  "sleep_ms n = emit (SleepMs n)"

definition spi_write :: "int list \<Rightarrow> world \<Rightarrow> world" where
  "spi_write packet = emit (SpiWrite packet)"

definition spi_read :: "int \<Rightarrow> world \<Rightarrow> int list \<times> world" where
  "spi_read n w = (miso w (nreads w), (emit (SpiRead n) w)\<lparr>nreads := Suc (nreads w)\<rparr>)"

definition ticks_ms :: "world \<Rightarrow> int \<times> world" where
  "ticks_ms w = (ticks w (nticks w), w\<lparr>nticks := Suc (nticks w)\<rparr>)"

text \<open>
  \<^verbatim>\<open>time.ticks_diff(a, b)\<close> of MicroPython: the difference \<open>a - b\<close> read in the ring of
  tick values, as a signed number in \<open>[-period/2, period/2)\<close>; the period is \<open>2^30\<close>.
\<close>

definition TICKS_PERIOD :: int where
  "TICKS_PERIOD = 2 ^ 30"

definition ticks_diff :: "int \<Rightarrow> int \<Rightarrow> int" where
  "ticks_diff a b =
     ((a - b + TICKS_PERIOD div 2) mod TICKS_PERIOD) - TICKS_PERIOD div 2"

text \<open>
  \<^verbatim>\<open>bytes(xs)\<close> for a list of integers: the list itself when every element is a byte,
  \<open>ValueError\<close> otherwise.
\<close>

definition bytes :: "int list \<Rightarrow> error + int list" where
  "bytes xs = (if list_all (\<lambda>x. 0 \<le> x \<and> x < 256) xs then Inr xs else Inl ValueError)"

text \<open>\<^verbatim>\<open>SERVTester.__init__\<close>: sets the bus up and raises chip select (active low).\<close>

definition SERVTester :: "int \<Rightarrow> int \<Rightarrow> int \<Rightarrow> world \<Rightarrow> world" where
  "SERVTester spi_id baudrate cs_pin w =
     (let w1 = emit (SpiInit spi_id baudrate) w;
          w2 = emit (PinInit cs_pin) w1
      in cs_value 1 w2)"

subsection \<open>The transport: \<^verbatim>\<open>write_word\<close> and \<^verbatim>\<open>read_response\<close>\<close>

text \<open>
  Lines 47 to 53: the four data bytes, least significant first, and the packet. On Python
  integers \<^verbatim>\<open>&\<close> and \<^verbatim>\<open>>>\<close> are those of two's complement of unbounded width, which
  is what \<open>AND\<close> and \<open>drop_bit\<close> on \<^typ>\<open>int\<close> are.
\<close>

definition packet_of :: "int \<Rightarrow> int \<Rightarrow> error + int list" where
  "packet_of address data =
     (let byte0 = data AND 0xFF;
          byte1 = (drop_bit 8 data) AND 0xFF;
          byte2 = (drop_bit 16 data) AND 0xFF;
          byte3 = (drop_bit 24 data) AND 0xFF
      in bytes [address, byte0, byte1, byte2, byte3])"

definition write_word :: "int \<Rightarrow> int \<Rightarrow> world \<Rightarrow> unit result" where
  "write_word address data w =
     (case packet_of address data of
        Inl e \<Rightarrow> (Inl e, w)
      | Inr packet \<Rightarrow>
          (let w1 = cs_value 0 w;
               w2 = sleep_us 2 w1;
               w3 = spi_write packet w2;
               w4 = sleep_us 2 w3;
               w5 = cs_value 1 w4;
               w6 = sleep_ms 1 w5
           in (Inr (), w6)))"

text \<open>
  \<^verbatim>\<open>read_response\<close>: one byte read inside a chip-select burst. An empty (or missing)
  response is falsy in Python and reads as 0.
\<close>

definition read_response :: "world \<Rightarrow> int \<times> world" where
  "read_response w =
     (let w1 = cs_value 0 w;
          w2 = sleep_us 2 w1;
          (response, w3) = spi_read 1 w2;
          w4 = sleep_us 2 w3;
          w5 = cs_value 1 w4;
          w6 = sleep_us 10 w5
      in (case response of [] \<Rightarrow> 0 | b # _ \<Rightarrow> b, w6))"

subsection \<open>Loops\<close>

text \<open>
  A Python \<^verbatim>\<open>for x in xs: body\<close> whose body may raise: the bodies run in order on the
  state the previous one left, and the first exception ends the loop.
\<close>

fun for_each :: "('a \<Rightarrow> world \<Rightarrow> unit result) \<Rightarrow> 'a list \<Rightarrow> world \<Rightarrow> unit result" where
  "for_each body [] w = (Inr (), w)"
| "for_each body (x # xs) w =
     (case body x w of
        (Inl e, w') \<Rightarrow> (Inl e, w')
      | (Inr u, w') \<Rightarrow> for_each body xs w')"

text \<open>
  \<^verbatim>\<open>load_program\<close>, lines 92 to 94: \<^verbatim>\<open>enumerate(program)\<close> pairs every instruction
  with its offset; the address is \<^verbatim>\<open>start_address + i\<close>, with no reduction.
\<close>

definition load_program :: "int list \<Rightarrow> int \<Rightarrow> world \<Rightarrow> unit result" where
  "load_program program start_address w =
     for_each (\<lambda>(i, instruction). write_word (start_address + int i) instruction)
       (enumerate 0 program) w"

text \<open>\<^verbatim>\<open>range(n)\<close> for an integer \<open>n\<close>: empty when \<open>n\<close> is not positive.\<close>

definition py_range :: "int \<Rightarrow> int list" where
  "py_range n = map int [0..<nat n]"

text \<open>Sequencing of a step that may raise with the code after it.\<close>

definition and_then :: "'a result \<Rightarrow> ('a \<Rightarrow> world \<Rightarrow> 'b result) \<Rightarrow> 'b result" where
  "and_then r k = (case r of (Inl e, w) \<Rightarrow> (Inl e, w) | (Inr x, w) \<Rightarrow> k x w)"

subsection \<open>The seven checks\<close>

text \<open>
  \<^verbatim>\<open>test_basic_communication\<close>, lines 103 to 118. The loop runs over \<^verbatim>\<open>range(5)\<close> and
  carries \<^verbatim>\<open>success_count\<close>; it has no \<^verbatim>\<open>break\<close>.
\<close>

fun basic_communication_loop :: "int list \<Rightarrow> nat \<Rightarrow> world \<Rightarrow> nat \<times> world" where
  "basic_communication_loop [] success_count w = (success_count, w)"
| "basic_communication_loop (i # rest) success_count w =
     (let (response, w1) = read_response w;
          expected = 0xA5;
          success_count' = (if response = expected then success_count + 1 else success_count);
          w2 = sleep_ms 50 w1
      in basic_communication_loop rest success_count' w2)"

definition test_basic_communication :: "world \<Rightarrow> bool result" where
  "test_basic_communication w =
     (let (success_count, w') = basic_communication_loop (py_range 5) 0 w;
          passed = (success_count = 5)
      in (Inr passed, w'))"

definition test_data :: "(int \<times> int) list" where
  "test_data =
     [(0, 0x12345678), (1, 0xDEADBEEF), (2, 0xCAFEBABE), (10, 0xABCDEF00), (255, 0xFFFFFFFF)]"

definition test_memory_write :: "world \<Rightarrow> bool result" where
  "test_memory_write w =
     and_then
       (for_each
          (\<lambda>(addr, data) w. and_then (write_word addr data w) (\<lambda>u w1. (Inr (), sleep_ms 20 w1)))
          test_data w)
       (\<lambda>u w'. (Inr True, w'))"

definition test_cpu_bootstrap :: "world \<Rightarrow> bool result" where
  "test_cpu_bootstrap w = (Inr True, sleep_ms 500 w)"

definition simple_program :: "int list" where
  "simple_program = [0x0AA00513, 0x20000597, 0x00a58023, 0x0000006f]"

definition test_custom_program_simple :: "world \<Rightarrow> bool result" where
  "test_custom_program_simple w =
     and_then (load_program simple_program 0 w) (\<lambda>u w1. (Inr True, sleep_ms 100 w1))"

definition loop_program :: "int list" where
  "loop_program =
     [0x00000513, 0x10000593, 0x20000617, 0x00a60023,
      0x00150513, 0x00160613, 0xfeb54ce3, 0x0000006f]"

definition test_custom_program_loop :: "world \<Rightarrow> bool result" where
  "test_custom_program_loop w =
     and_then (load_program loop_program 0 w) (\<lambda>u w1. (Inr True, sleep_ms 200 w1))"

definition test_data_memory_write :: "world \<Rightarrow> bool result" where
  "test_data_memory_write w =
     and_then
       (for_each
          (\<lambda>i. let addr = 100 + i;
                   data = (0x11111111 * (i + 1)) AND 0xFFFFFFFF
               in write_word addr data)
          (py_range 16) w)
       (\<lambda>u w'. (Inr True, w'))"

text \<open>
  \<^verbatim>\<open>stress_test\<close>, lines 231 to 247. The two figures of the last report lines are
  quotients: \<^verbatim>\<open>elapsed/iterations\<close> raises when \<^verbatim>\<open>iterations\<close> is 0 and
  \<^verbatim>\<open>iterations*1000/elapsed\<close> raises when \<^verbatim>\<open>elapsed\<close> is 0, both before the
  \<^verbatim>\<open>return True\<close>.
\<close>

definition stress_test :: "int \<Rightarrow> world \<Rightarrow> bool result" where
  "stress_test iterations w =
     (let (start_time, w1) = ticks_ms w
      in and_then
           (for_each
              (\<lambda>i. let addr = i mod 256;
                       data = (i * 0x01010101) AND 0xFFFFFFFF
                   in write_word addr data)
              (py_range iterations) w1)
           (\<lambda>u w2.
              let (now, w3) = ticks_ms w2;
                  elapsed = ticks_diff now start_time
              in if iterations = 0 then (Inl ZeroDivisionError, w3)
                 else if elapsed = 0 then (Inl ZeroDivisionError, w3)
                 else (Inr True, w3)))"

subsection \<open>The suite\<close>

type_synonym check = "world \<Rightarrow> bool result"

definition tests :: "(string \<times> check) list" where
  "tests =
     [(''Basic SPI Communication'', test_basic_communication),
      (''Memory Write (32-bit)'', test_memory_write),
      (''CPU Bootstrap Check'', test_cpu_bootstrap),
      (''Simple Custom Program'', test_custom_program_simple),
      (''Counting Loop Program'', test_custom_program_loop),
      (''Data Memory Write'', test_data_memory_write),
      (''Stress Test'', stress_test 50)]"

text \<open>Line 274: the one place where the text of an error goes.\<close>

definition print_error :: "string \<Rightarrow> error \<Rightarrow> world \<Rightarrow> world" where
  "print_error test_name e w = w\<lparr>errlog := errlog w @ [(test_name, e)]\<rparr>"

text \<open>
  Lines 268 to 275, the loop over the registered checks with its \<^verbatim>\<open>try\<close>. A check that
  returns is recorded with its result and followed by the pause of 300 ms; a check that
  raises is recorded as \<^verbatim>\<open>(test_name, False)\<close> after its error was printed.
\<close>

fun run_tests :: "(string \<times> check) list \<Rightarrow> (string \<times> bool) list \<Rightarrow> world
    \<Rightarrow> (string \<times> bool) list \<times> world" where
  "run_tests [] results w = (results, w)"
| "run_tests ((test_name, test_func) # rest) results w =
     (case test_func w of
        (Inr result, w1) \<Rightarrow>
          run_tests rest (results @ [(test_name, result)]) (sleep_ms 300 w1)
      | (Inl e, w1) \<Rightarrow>
          run_tests rest (results @ [(test_name, False)]) (print_error test_name e w1))"

text \<open>Lines 282 and 283: the two counts of the summary.\<close>

definition passed_count :: "(string \<times> bool) list \<Rightarrow> nat" where
  "passed_count results = sum_list (map (\<lambda>(n, result). 1) (filter (\<lambda>(n, result). result) results))"

definition total_count :: "(string \<times> bool) list \<Rightarrow> nat" where
  "total_count results = length results"

definition overall_success :: "(string \<times> bool) list \<Rightarrow> bool" where
  "overall_success results = (passed_count results = total_count results)"

definition run_all_tests :: "world \<Rightarrow> bool \<times> world" where
  "run_all_tests w =
     (let (results, w') = run_tests tests [] w
      in (overall_success results, w'))"

subsection \<open>\<^verbatim>\<open>reset_cpu\<close>\<close>

text \<open>Lines 364 to 368: a tester with the default arguments, then sixteen no-ops.\<close>

definition reset_cpu :: "world \<Rightarrow> unit result" where
  "reset_cpu w =
     (let w0 = SERVTester 0 1000000 1 w
      in for_each (\<lambda>i. write_word i 0x00000013) (py_range 16) w0)"

section \<open>Notions of the specification\<close>

text \<open>The frames written and the bus transfers (writes and reads) of a log, in order.\<close>

fun is_transfer :: "event \<Rightarrow> bool" where
  "is_transfer (SpiWrite p) = True"
| "is_transfer (SpiRead n) = True"
| "is_transfer e = False"

definition transfers :: "event list \<Rightarrow> event list" where
  "transfers es = filter is_transfer es"

text \<open>The value of a byte sequence read least significant byte first.\<close>

fun le_value :: "int list \<Rightarrow> int" where
  "le_value [] = 0"
| "le_value (b # bs) = b + 256 * le_value bs"

text \<open>The frame of the wire protocol, and the events of one write transaction.\<close>

definition frame :: "int \<Rightarrow> int \<Rightarrow> int list" where
  "frame address data =
     [address, data mod 256, data div 256 mod 256,
      data div 65536 mod 256, data div 16777216 mod 256]"

definition write_events :: "int \<Rightarrow> int \<Rightarrow> event list" where
  "write_events address data =
     [CsValue 0, SleepUs 2, SpiWrite (frame address data), SleepUs 2, CsValue 1, SleepMs 1]"

definition emits :: "event list \<Rightarrow> world \<Rightarrow> world" where
  "emits es w = w\<lparr>trace := trace w @ es\<rparr>"

text \<open>
  The world after more events, \<open>r\<close> more reads of the bus and \<open>t\<close> more readings of the
  clock; \<open>emits\<close> is the case of no read and no reading.
\<close>

definition advance :: "event list \<Rightarrow> nat \<Rightarrow> nat \<Rightarrow> world \<Rightarrow> world" where
  "advance es r t w =
     w\<lparr>trace := trace w @ es, nreads := nreads w + r, nticks := nticks w + t\<rparr>"

text \<open>The events of one status read, and the status byte that the \<open>k\<close>-th next read yields.\<close>

definition read_events :: "event list" where
  "read_events = [CsValue 0, SleepUs 2, SpiRead 1, SleepUs 2, CsValue 1, SleepUs 10]"

definition status_byte :: "world \<Rightarrow> nat \<Rightarrow> int" where
  "status_byte w k = (case miso w (nreads w + k) of [] \<Rightarrow> 0 | b # _ \<Rightarrow> b)"

text \<open>
  What the suite records for a check that ended with \<open>r\<close>, and the world in which the next
  check starts.
\<close>

definition outcome_of :: "bool result \<Rightarrow> bool" where
  "outcome_of r = (case fst r of Inl e \<Rightarrow> False | Inr b \<Rightarrow> b)"

definition after_check :: "string \<Rightarrow> bool result \<Rightarrow> world" where
  "after_check test_name r =
     (case r of (Inr b, w1) \<Rightarrow> sleep_ms 300 w1 | (Inl e, w1) \<Rightarrow> print_error test_name e w1)"

text \<open>
  The bus transfers of a full run of the suite, check by check: five status reads, the
  five writes of the memory-write check (the bootstrap check has none), the four and the
  eight words of the two programs, the sixteen pattern words and the fifty writes of the
  throughput check.
\<close>

definition program_writes :: "int list \<Rightarrow> event list" where
  "program_writes program = map (\<lambda>(i, x). SpiWrite (frame (int i) x)) (enumerate 0 program)"

definition check_transfers :: "event list list" where
  "check_transfers =
     [replicate 5 (SpiRead 1),
      map (\<lambda>(a, d). SpiWrite (frame a d)) test_data,
      [],
      program_writes simple_program,
      program_writes loop_program,
      map (\<lambda>i. SpiWrite (frame (100 + i) (0x11111111 * (i + 1)))) (py_range 16),
      map (\<lambda>i. SpiWrite (frame (i mod 256) (i * 0x01010101))) (py_range 50)]"

text \<open>Two concrete worlds: a healthy peer, and a clock that stands still.\<close>

definition healthy :: world where
  "healthy =
     \<lparr>trace = [], miso = (\<lambda>k. [0xA5]), nreads = 0,
      ticks = (\<lambda>k. 1000 + 100 * int k), nticks = 0, errlog = []\<rparr>"

definition frozen_clock :: world where
  "frozen_clock = healthy\<lparr>ticks := (\<lambda>k. 1000)\<rparr>"

definition third_read_a4 :: world where
  "third_read_a4 = healthy\<lparr>miso := (\<lambda>k. if k = 2 then [0xA4] else [0xA5])\<rparr>"

section \<open>Properties\<close>

subsection \<open>Events of one write transaction\<close>

lemma emits_Nil: "emits [] w = w"
  by (simp add: emits_def)

lemma emits_emits: "emits bs (emits as w) = emits (as @ bs) w"
  by (simp add: emits_def)

lemma emit_emits: "emit e w = emits [e] w"
  by (simp add: emit_def emits_def)

lemma trace_emits: "trace (emits es w) = trace w @ es"
  by (simp add: emits_def)

lemma and_255: "(k::int) AND 255 = k mod 256"
proof -
  have "k AND 255 = k AND mask 8" by (simp add: mask_eq_exp_minus_1)
  also have "\<dots> = take_bit 8 k" by (simp add: take_bit_eq_mask)
  also have "\<dots> = k mod 256" by (simp add: take_bit_eq_mod)
  finally show ?thesis .
qed

lemma data_bytes:
  "(data::int) AND 255 = data mod 256"
  "drop_bit 8 data AND 255 = data div 256 mod 256"
  "drop_bit 16 data AND 255 = data div 65536 mod 256"
  "drop_bit 24 data AND 255 = data div 16777216 mod 256"
  by (simp_all add: and_255 drop_bit_eq_div)

lemma packet_of_eq:
  "packet_of address data =
     (if 0 \<le> address \<and> address < 256 then Inr (frame address data) else Inl ValueError)"
  by (simp add: packet_of_def bytes_def data_bytes drop_bit_eq_div frame_def)

lemma write_word_eq:
  "write_word address data w =
     (if 0 \<le> address \<and> address < 256
      then (Inr (), emits (write_events address data) w)
      else (Inl ValueError, w))"
  by (simp add: write_word_def packet_of_eq cs_value_def sleep_us_def sleep_ms_def
      spi_write_def emit_emits emits_emits write_events_def)

subsection \<open>The frame\<close>

lemma le_value_frame: "le_value (tl (frame address data)) = data mod 4294967296"
proof -
  have d: "data div 256 div 256 = data div 65536" "data div 65536 div 256 = data div 16777216"
    using zdiv_zmult2_eq [of 256 data 256] zdiv_zmult2_eq [of 256 data 65536] by simp_all
  have a: "data mod 4294967296 = 256 * (data div 256 mod 16777216) + data mod 256"
    using zmod_zmult2_eq [of 16777216 data 256] by simp
  have b: "data div 256 mod 16777216 = 256 * (data div 65536 mod 65536) + data div 256 mod 256"
    using zmod_zmult2_eq [of 65536 "data div 256" 256] by (simp add: d)
  have c: "data div 65536 mod 65536
      = 256 * (data div 16777216 mod 256) + data div 65536 mod 256"
    using zmod_zmult2_eq [of 256 "data div 65536" 256] by (simp add: d)
  have "data mod 4294967296 =
      256 * (256 * (256 * (data div 16777216 mod 256) + data div 65536 mod 256)
        + data div 256 mod 256) + data mod 256"
    by (simp only: a b c)
  moreover have "le_value (tl (frame address data))
      = data mod 256 + 256 * (data div 256 mod 256 + 256 * (data div 65536 mod 256
          + 256 * (data div 16777216 mod 256)))"
    by (simp add: frame_def)
  ultimately show ?thesis
    by (simp only: add.commute)
qed

lemma byte_bits:
  "(x::int) mod 256 = take_bit 8 x"
  "x mod 4294967296 = take_bit 32 x"
  "x div 256 = drop_bit 8 x"
  "x div 65536 = drop_bit 16 x"
  "x div 16777216 = drop_bit 24 x"
  by (simp_all add: take_bit_eq_mod drop_bit_eq_div)

lemma frame_mod: "frame address (data mod 4294967296) = frame address data"
  unfolding frame_def byte_bits by (simp add: drop_bit_take_bit)

lemma frame_data_bytes: "list_all (\<lambda>b. 0 \<le> b \<and> b < 256) (tl (frame address data))"
  by (simp add: frame_def)

text \<open>
  Claim C3. For every address in 0..255 and every data value in 0..2^32-1 the encoding
  step of \<^verbatim>\<open>write_word\<close> yields a frame of exactly five bytes: byte 0 is the address,
  bytes 1 to 4 are bytes (each in 0..255) whose little-endian value is the data, and that
  frame is what the transaction puts on the bus. The frame of address 10 and data
  0xABCDEF00 is [10, 0x00, 0xEF, 0xCD, 0xAB].
\<close>

theorem encode_little_endian:
  assumes "0 \<le> address" "address < 256" "0 \<le> data" "data < 4294967296"
  shows "packet_of address data = Inr (frame address data)
    \<and> length (frame address data) = 5
    \<and> frame address data ! 0 = address
    \<and> list_all (\<lambda>b. 0 \<le> b \<and> b < 256) (tl (frame address data))
    \<and> le_value (tl (frame address data)) = data
    \<and> transfers (trace (snd (write_word address data w)))
        = transfers (trace w) @ [SpiWrite (frame address data)]
    \<and> packet_of 10 0xABCDEF00 = Inr [10, 0x00, 0xEF, 0xCD, 0xAB]"
proof -
  have "packet_of address data = Inr (frame address data)"
    using assms(1,2) by (simp add: packet_of_eq)
  moreover have "length (frame address data) = 5 \<and> frame address data ! 0 = address"
    by (simp add: frame_def)
  moreover have "le_value (tl (frame address data)) = data"
    using assms(3,4) by (simp add: le_value_frame)
  moreover have "transfers (trace (snd (write_word address data w)))
      = transfers (trace w) @ [SpiWrite (frame address data)]"
    using assms(1,2) by (simp add: write_word_eq trace_emits transfers_def write_events_def)
  moreover have "packet_of 10 0xABCDEF00 = Inr [10, 0x00, 0xEF, 0xCD, 0xAB]"
    by (simp add: packet_of_eq frame_def)
  ultimately show ?thesis
    using frame_data_bytes by simp
qed

theorem encode_little_endian_witness:
  "packet_of 255 0xFFFFFFFF = Inr [255, 255, 255, 255, 255]
    \<and> le_value [255, 255, 255, 255] = 0xFFFFFFFF
    \<and> transfers (trace (snd (write_word 255 0xFFFFFFFF healthy)))
        = [SpiWrite [255, 255, 255, 255, 255]]"
  using encode_little_endian [of 255 "0xFFFFFFFF" healthy]
  by (simp add: frame_def healthy_def transfers_def)

text \<open>
  Claim C9. For every integer data value, in particular every nonnegative one at or
  above 2^32, the frame that \<^verbatim>\<open>write_word\<close> builds for a valid address has exactly five
  bytes, each in 0..255, and its data bytes are the little-endian bytes of the data taken
  mod 2^32: the bits from bit 32 on are dropped, the packet is that of the reduced value,
  and the write raises no error.
\<close>

theorem encode_discards_high_bits:
  assumes "0 \<le> address" "address < 256"
  shows "packet_of address data = Inr (frame address data)
    \<and> length (frame address data) = 5
    \<and> list_all (\<lambda>b. 0 \<le> b \<and> b < 256) (frame address data)
    \<and> le_value (tl (frame address data)) = data mod 4294967296
    \<and> packet_of address data = packet_of address (data mod 4294967296)
    \<and> fst (write_word address data w) = Inr ()"
proof -
  have "packet_of address data = Inr (frame address data)"
    using assms by (simp add: packet_of_eq)
  moreover have "length (frame address data) = 5"
    by (simp add: frame_def)
  moreover have "list_all (\<lambda>b. 0 \<le> b \<and> b < 256) (frame address data)"
    using assms by (simp add: frame_def)
  moreover have "packet_of address data = packet_of address (data mod 4294967296)"
    by (simp add: packet_of_eq frame_mod)
  moreover have "fst (write_word address data w) = Inr ()"
    using assms by (simp add: write_word_eq)
  ultimately show ?thesis
    using le_value_frame by simp
qed

theorem encode_discards_high_bits_witness:
  "packet_of 7 0x1A2345678 = Inr [7, 0x78, 0x56, 0x34, 0xA2]
    \<and> packet_of 7 0x1A2345678 = packet_of 7 0xA2345678
    \<and> fst (write_word 7 0x1A2345678 healthy) = Inr ()"
  using encode_discards_high_bits [of 7 "0x1A2345678" healthy]
  by (simp add: frame_def packet_of_eq)

subsection \<open>Loops over writes\<close>

lemma for_each_emits:
  "(\<And>x w. x \<in> set xs \<Longrightarrow> body x w = (Inr (), emits (ev x) w))
   \<Longrightarrow> for_each body xs w = (Inr (), emits (concat (map ev xs)) w)"
proof (induction xs arbitrary: w)
  case Nil
  then show ?case by (simp add: emits_Nil)
next
  case (Cons x xs)
  have "body x w = (Inr (), emits (ev x) w)" using Cons.prems by simp
  moreover have "for_each body xs (emits (ev x) w)
      = (Inr (), emits (concat (map ev xs)) (emits (ev x) w))"
    using Cons.IH Cons.prems by simp
  ultimately show ?case by (simp add: emits_emits)
qed

lemma for_each_append:
  "for_each body (xs @ ys) w =
     (case for_each body xs w of
        (Inl e, w') \<Rightarrow> (Inl e, w')
      | (Inr u, w') \<Rightarrow> for_each body ys w')"
  by (induction xs arbitrary: w) (auto split: prod.splits sum.splits)

lemma enumerate_take_index:
  "(i, x) \<in> set (take k (enumerate 0 xs)) \<Longrightarrow> i < k \<and> i < length xs"
proof -
  assume "(i, x) \<in> set (take k (enumerate 0 xs))"
  then obtain j where j: "j < length (take k (enumerate 0 xs))"
      and eq: "take k (enumerate 0 xs) ! j = (i, x)"
    by (auto simp: in_set_conv_nth)
  from j have "j < k" "j < length xs" by simp_all
  with eq show ?thesis by (simp add: nth_enumerate_eq)
qed

lemma transfers_append: "transfers (xs @ ys) = transfers xs @ transfers ys"
  by (simp add: transfers_def)

lemma transfers_concat_writes:
  "transfers (concat (map (\<lambda>(i, x). write_events (f i) x) ps))
     = map (\<lambda>(i, x). SpiWrite (frame (f i) x)) ps"
  unfolding transfers_def by (induction ps) (auto simp: write_events_def)

subsection \<open>\<^verbatim>\<open>load_program\<close>\<close>

lemma load_in_range:
  assumes "0 \<le> base" "base + int (length program) \<le> 256"
  shows "load_program program base w =
     (Inr (), emits (concat (map (\<lambda>(i, x). write_events (base + int i) x)
        (enumerate 0 program))) w)"
  unfolding load_program_def
proof (rule for_each_emits)
  fix p w' assume mem: "p \<in> set (enumerate 0 program)"
  obtain i x where p: "p = (i, x)" by (cases p)
  from mem have "i < length program" by (simp add: p in_set_enumerate_eq)
  with assms have "0 \<le> base + int i \<and> base + int i < 256" by simp
  then show "(case p of (i, instruction) \<Rightarrow> write_word (base + int i) instruction) w'
     = (Inr (), emits (case p of (i, x) \<Rightarrow> write_events (base + int i) x) w')"
    by (simp add: p write_word_eq)
qed

lemma load_out_of_range:
  assumes "0 \<le> base" "256 < base + int (length program)" "program \<noteq> []"
  shows "load_program program base w =
     (Inl ValueError, emits (concat (map (\<lambda>(i, x). write_events (base + int i) x)
        (take (nat (256 - base)) (enumerate 0 program)))) w)"
proof -
  define k where "k = nat (256 - base)"
  define body where "body = (\<lambda>(i, instruction). write_word (base + int i) instruction)"
  define ev where "ev = (\<lambda>(i::nat, x). write_events (base + int i) x)"
  have k: "k < length program" "256 \<le> base + int k"
  proof -
    have "0 < length program" using assms(3) by simp
    then show "k < length program" using assms(1,2) unfolding k_def by arith
    show "256 \<le> base + int k" using assms unfolding k_def by arith
  qed
  have split: "enumerate 0 program
      = take k (enumerate 0 program) @ (k, program ! k) # drop (Suc k) (enumerate 0 program)"
  proof -
    have "k < length (enumerate 0 program)" using k(1) by simp
    then have "enumerate 0 program
        = take k (enumerate 0 program) @ enumerate 0 program ! k
            # drop (Suc k) (enumerate 0 program)"
      by (rule id_take_nth_drop)
    then show ?thesis using k(1) by (simp add: nth_enumerate_eq)
  qed
  have first: "for_each body (take k (enumerate 0 program)) w
      = (Inr (), emits (concat (map ev (take k (enumerate 0 program)))) w)"
  proof (rule for_each_emits)
    fix p w' assume mem: "p \<in> set (take k (enumerate 0 program))"
    obtain i x where p: "p = (i, x)" by (cases p)
    from mem have "i < k" by (auto simp: p dest: enumerate_take_index)
    then have "0 \<le> base + int i \<and> base + int i < 256"
      using assms(1) by (simp add: k_def)
    then show "body p w' = (Inr (), emits (ev p) w')"
      by (simp add: p body_def ev_def write_word_eq)
  qed
  have fail: "body (k, program ! k) w' = (Inl ValueError, w')" for w'
    using k(2) by (simp add: body_def write_word_eq)
  have "for_each body (enumerate 0 program) w
      = (Inl ValueError, emits (concat (map ev (take k (enumerate 0 program)))) w)"
    by (subst split) (simp add: for_each_append first fail)
  then show ?thesis
    by (simp add: load_program_def body_def ev_def k_def)
qed

text \<open>
  Claim C1, as amended. For every program and every base address from 0 on such that
  \<open>base + len(program) \<le> 256\<close>, \<^verbatim>\<open>load_program\<close> returns normally after exactly
  \<open>len(program)\<close> write transactions and nothing else: the \<open>i\<close>-th carries the frame of
  address \<open>base + i\<close> and of the \<open>i\<close>-th word, in ascending offset order. No address is
  reduced mod 256: when the program reaches beyond address 255, the writes below 256 are
  issued and the first one beyond raises \<open>ValueError\<close>, which ends the load.
\<close>

theorem load_program_writes:
  assumes "0 \<le> base"
  shows "(base + int (length program) \<le> 256 \<longrightarrow>
       load_program program base w =
         (Inr (), emits (concat (map (\<lambda>(i, x). write_events (base + int i) x)
            (enumerate 0 program))) w)
       \<and> transfers (trace (snd (load_program program base w)))
          = transfers (trace w)
            @ map (\<lambda>(i, x). SpiWrite (frame (base + int i) x)) (enumerate 0 program)
       \<and> length (map (\<lambda>(i, x). SpiWrite (frame (base + int i) x)) (enumerate 0 program))
          = length program)
    \<and> (program \<noteq> [] \<and> 256 < base + int (length program) \<longrightarrow>
       load_program program base w =
         (Inl ValueError, emits (concat (map (\<lambda>(i, x). write_events (base + int i) x)
            (take (nat (256 - base)) (enumerate 0 program)))) w))"
proof (intro conjI impI)
  assume le: "base + int (length program) \<le> 256"
  show eq: "load_program program base w =
      (Inr (), emits (concat (map (\<lambda>(i, x). write_events (base + int i) x)
         (enumerate 0 program))) w)"
    using assms le by (rule load_in_range)
  show "transfers (trace (snd (load_program program base w)))
      = transfers (trace w)
        @ map (\<lambda>(i, x). SpiWrite (frame (base + int i) x)) (enumerate 0 program)"
    by (simp add: eq trace_emits transfers_append
        transfers_concat_writes [where f = "\<lambda>i. base + int i"])
  show "length (map (\<lambda>(i, x). SpiWrite (frame (base + int i) x)) (enumerate 0 program))
      = length program"
    by simp
next
  assume "program \<noteq> [] \<and> 256 < base + int (length program)"
  then show "load_program program base w =
      (Inl ValueError, emits (concat (map (\<lambda>(i, x). write_events (base + int i) x)
         (take (nat (256 - base)) (enumerate 0 program)))) w)"
    using assms by (simp add: load_out_of_range)
qed

theorem load_program_writes_witness:
  "load_program [1, 2, 3] 253 healthy =
     (Inr (), emits (write_events 253 1 @ write_events 254 2 @ write_events 255 3) healthy)
   \<and> transfers (trace (snd (load_program [1, 2, 3] 253 healthy)))
      = [SpiWrite [253, 1, 0, 0, 0], SpiWrite [254, 2, 0, 0, 0], SpiWrite [255, 3, 0, 0, 0]]
   \<and> load_program [1, 2, 3] 254 healthy =
     (Inl ValueError, emits (write_events 254 1 @ write_events 255 2) healthy)"
  using load_program_writes [of 253 "[1, 2, 3]" healthy]
    load_program_writes [of 254 "[1, 2, 3]" healthy]
  by (simp add: enumerate_eq_zip upt_rec frame_def healthy_def transfers_def emits_def
      write_events_def)

text \<open>
  Claim C1 as it was stated fails where the addresses pass 255: two words loaded at
  base 255 give one write, to address 255, and then \<open>ValueError\<close>; no frame goes to
  address \<open>(255 + 1) mod 256 = 0\<close>.
\<close>

theorem load_program_wrap_counterexample:
  "load_program [0x13, 0x13] 255 healthy
     = (Inl ValueError, emits (write_events 255 0x13) healthy)
   \<and> transfers (trace (snd (load_program [0x13, 0x13] 255 healthy)))
      = [SpiWrite [255, 0x13, 0, 0, 0]]
   \<and> transfers (trace (snd (load_program [0x13, 0x13] 255 healthy)))
      \<noteq> [SpiWrite (frame (255 mod 256) 0x13), SpiWrite (frame ((255 + 1) mod 256) 0x13)]"
  by (simp add: load_program_def write_word_eq emits_def write_events_def frame_def
      transfers_def healthy_def)

text \<open>
  Claim C10. For the empty program and every base address, \<^verbatim>\<open>load_program\<close> returns
  normally and leaves the hardware as it found it: no write is issued and no frame
  reaches the bus.
\<close>

theorem load_program_empty:
  "load_program [] base w = (Inr (), w)
    \<and> transfers (trace (snd (load_program [] base w))) = transfers (trace w)"
  by (simp add: load_program_def)

subsection \<open>The status-read check\<close>

lemma advance_advance:
  "advance es2 r2 t2 (advance es1 r1 t1 w) = advance (es1 @ es2) (r1 + r2) (t1 + t2) w"
  by (simp add: advance_def)

lemma advance_zero: "advance [] 0 0 w = w"
  by (simp add: advance_def)

lemma emits_advance: "emits es w = advance es 0 0 w"
  by (simp add: emits_def advance_def)

lemma advance_fields:
  "trace (advance es r t w) = trace w @ es"
  "miso (advance es r t w) = miso w"
  "nreads (advance es r t w) = nreads w + r"
  "ticks (advance es r t w) = ticks w"
  "nticks (advance es r t w) = nticks w + t"
  "errlog (advance es r t w) = errlog w"
  by (simp_all add: advance_def)

lemma read_response_eq:
  "read_response w = (status_byte w 0, advance read_events 1 0 w)"
  by (simp add: read_response_def spi_read_def cs_value_def sleep_us_def emit_def
      advance_def read_events_def status_byte_def)

lemma sleep_ms_advance: "sleep_ms n w = advance [SleepMs n] 0 0 w"
  by (simp add: sleep_ms_def emit_def advance_def)

lemma status_byte_advance:
  "status_byte (advance es r t w) k = status_byte w (r + k)"
  by (simp add: status_byte_def advance_fields add.assoc)

lemma count_matches_Suc:
  "length (filter P [0..<Suc n]) = (if P 0 then 1 else 0) + length (filter (P \<circ> Suc) [0..<n])"
proof -
  have "[0..<Suc n] = 0 # map Suc [0..<n]"
    by (simp add: map_Suc_upt upt_conv_Cons)
  then show ?thesis
    by (simp add: length_filter_map)
qed

lemma basic_communication_loop_eq:
  "basic_communication_loop xs c w =
     (c + length (filter (\<lambda>k. status_byte w k = 0xA5) [0..<length xs]),
      advance (concat (replicate (length xs) (read_events @ [SleepMs 50]))) (length xs) 0 w)"
proof (induction xs arbitrary: c w)
  case Nil
  then show ?case by (simp add: advance_zero)
next
  case (Cons x xs)
  define w2 where "w2 = advance (read_events @ [SleepMs 50]) 1 0 w"
  have step: "basic_communication_loop (x # xs) c w =
      basic_communication_loop xs (if status_byte w 0 = 0xA5 then c + 1 else c) w2"
    by (simp add: read_response_eq sleep_ms_advance advance_advance w2_def)
  have bytes: "status_byte w2 k = status_byte w (Suc k)" for k
    by (simp add: w2_def status_byte_advance)
  show ?case
    unfolding step Cons.IH bytes
    by (simp add: count_matches_Suc [of _ "length xs"] comp_def w2_def advance_advance
        del: upt_Suc)
qed

lemma all_match_iff:
  "(length (filter P xs) = length xs) = list_all P xs"
proof (induction xs)
  case Nil
  then show ?case by simp
next
  case (Cons a xs)
  have "length (filter P xs) \<le> length xs" by simp
  with Cons.IH show ?case by (auto simp del: length_filter_le)
qed

lemma test_basic_communication_eq:
  "test_basic_communication w =
     (Inr (list_all (\<lambda>k. status_byte w k = 0xA5) [0..<5]),
      advance (concat (replicate 5 (read_events @ [SleepMs 50]))) 5 0 w)"
proof -
  have len: "length (py_range 5) = 5" by (simp add: py_range_def)
  have "length (filter (\<lambda>k. status_byte w k = 0xA5) [0..<5]) = 5
      \<longleftrightarrow> list_all (\<lambda>k. status_byte w k = 0xA5) [0..<5]"
    using all_match_iff [of "\<lambda>k. status_byte w k = 0xA5" "[0..<5]"] by simp
  then show ?thesis
    by (simp add: test_basic_communication_def basic_communication_loop_eq len)
qed

lemma transfers_reads:
  "transfers (concat (replicate n (read_events @ [SleepMs 50]))) = replicate n (SpiRead 1)"
  by (induction n) (simp_all add: transfers_def read_events_def)

text \<open>
  Claim C6, as amended. The status-read check performs exactly five status reads and
  nothing else on the bus, and returns true if and only if all five reads equal 0xA5. Its
  internal success count is the number of the five reads that equal 0xA5: the loop does
  not stop at a mismatch. On a transport that returns 0xA5 five times the check passes; on
  one that returns 0xA4 on the third read and 0xA5 on the others it fails, with a success
  count of 4.
\<close>

theorem status_check:
  "test_basic_communication w =
     (Inr (list_all (\<lambda>k. status_byte w k = 0xA5) [0..<5]),
      advance (concat (replicate 5 (read_events @ [SleepMs 50]))) 5 0 w)
   \<and> transfers (trace (snd (test_basic_communication w)))
      = transfers (trace w) @ replicate 5 (SpiRead 1)
   \<and> fst (basic_communication_loop (py_range 5) 0 w)
      = length (filter (\<lambda>k. status_byte w k = 0xA5) [0..<5])
   \<and> fst (test_basic_communication healthy) = Inr True
   \<and> fst (test_basic_communication third_read_a4) = Inr False
   \<and> fst (basic_communication_loop (py_range 5) 0 third_read_a4) = 4"
proof -
  have len: "length (py_range 5) = 5" by (simp add: py_range_def)
  have upt5: "[0..<5] = [0, 1, 2, 3, 4]" by (simp add: upt_rec)
  have a: "transfers (trace (snd (test_basic_communication w)))
      = transfers (trace w) @ replicate 5 (SpiRead 1)"
    by (simp only: test_basic_communication_eq snd_conv advance_fields transfers_append
        transfers_reads)
  have b: "fst (basic_communication_loop (py_range 5) 0 w)
      = length (filter (\<lambda>k. status_byte w k = 0xA5) [0..<5])"
    by (simp add: basic_communication_loop_eq len)
  have c: "fst (test_basic_communication healthy) = Inr True"
    by (simp add: test_basic_communication_eq upt5 status_byte_def healthy_def)
  have d: "fst (test_basic_communication third_read_a4) = Inr False"
    by (simp add: test_basic_communication_eq upt5 status_byte_def third_read_a4_def healthy_def)
  have e: "fst (basic_communication_loop (py_range 5) 0 third_read_a4) = 4"
    by (simp add: basic_communication_loop_eq len upt5 status_byte_def third_read_a4_def
        healthy_def)
  show ?thesis
    using test_basic_communication_eq a b c d e by simp
qed

text \<open>
  The count of 2 that claim C6 gives for a mismatch on the third read is not what the
  loop computes: reads four and five are still made and counted.
\<close>

theorem status_count_counterexample:
  "fst (basic_communication_loop (py_range 5) 0 third_read_a4) = 4
   \<and> fst (basic_communication_loop (py_range 5) 0 third_read_a4) \<noteq> 2
   \<and> map (status_byte third_read_a4) [0, 1, 2, 3, 4] = [0xA5, 0xA5, 0xA4, 0xA5, 0xA5]"
  by (simp add: basic_communication_loop_eq py_range_def upt_rec status_byte_def
      third_read_a4_def healthy_def)


subsection \<open>\<^verbatim>\<open>reset_cpu\<close>\<close>

lemma set_py_range: "i \<in> set (py_range n) \<Longrightarrow> 0 \<le> i \<and> i < n"
  by (auto simp: py_range_def)

lemma SERVTester_eq:
  "SERVTester spi_id baudrate cs_pin w
     = emits [SpiInit spi_id baudrate, PinInit cs_pin, CsValue 1] w"
  by (simp add: SERVTester_def cs_value_def emit_emits emits_emits)

lemma reset_cpu_eq:
  "reset_cpu w =
     (Inr (), emits ([SpiInit 0 1000000, PinInit 1, CsValue 1]
        @ concat (map (\<lambda>i. write_events i 0x13) (py_range 16))) w)"
proof -
  have "for_each (\<lambda>i. write_word i 0x13) (py_range 16) w'
      = (Inr (), emits (concat (map (\<lambda>i. write_events i 0x13) (py_range 16))) w')" for w'
  proof (rule for_each_emits)
    fix i w'' assume "i \<in> set (py_range 16)"
    then have "0 \<le> i \<and> i < 256" by (auto dest: set_py_range)
    then show "write_word i 0x13 w'' = (Inr (), emits (write_events i 0x13) w'')"
      by (simp add: write_word_eq)
  qed
  then show ?thesis
    by (simp add: reset_cpu_def SERVTester_eq emits_emits)
qed

lemma transfers_writes:
  "transfers (concat (map (\<lambda>i. write_events (f i) (g i)) xs))
     = map (\<lambda>i. SpiWrite (frame (f i) (g i))) xs"
  unfolding transfers_def by (induction xs) (auto simp: write_events_def)

lemma py_range_16: "py_range 16 = [0, 1, 2, 3, 4, 5, 6, 7, 8, 9, 10, 11, 12, 13, 14, 15]"
  by (simp add: py_range_def upt_rec)

text \<open>
  Claim C8. The reset operation returns normally after exactly sixteen write
  transactions, one to each address 0, 1, ..., 15 in ascending order, each carrying the
  no-op word 0x00000013 (the frame \<open>[address, 0x13, 0, 0, 0]\<close>). Apart from the set-up of
  the tester (bus and pin initialisation, chip select raised) nothing else happens: no
  other write and no read.
\<close>

theorem reset_cpu_writes:
  "reset_cpu w =
     (Inr (), emits ([SpiInit 0 1000000, PinInit 1, CsValue 1]
        @ concat (map (\<lambda>i. write_events i 0x00000013) (py_range 16))) w)
   \<and> py_range 16 = [0, 1, 2, 3, 4, 5, 6, 7, 8, 9, 10, 11, 12, 13, 14, 15]
   \<and> transfers (trace (snd (reset_cpu w)))
      = transfers (trace w) @ map (\<lambda>i. SpiWrite [i, 0x13, 0, 0, 0]) (py_range 16)
   \<and> length (map (\<lambda>i. SpiWrite [i, 0x13, 0, 0, 0]) (py_range 16)) = 16"
proof -
  have frame: "frame i 0x13 = [i, 0x13, 0, 0, 0]" for i
    by (simp add: frame_def)
  have "transfers (trace (snd (reset_cpu w)))
      = transfers (trace w) @ transfers [SpiInit 0 1000000, PinInit 1, CsValue 1]
        @ transfers (concat (map (\<lambda>i. write_events i 0x13) (py_range 16)))"
    by (simp only: reset_cpu_eq snd_conv trace_emits transfers_append)
  also have "transfers [SpiInit 0 1000000, PinInit 1, CsValue 1] = []"
    by (simp add: transfers_def)
  also have "transfers (concat (map (\<lambda>i. write_events i 0x13) (py_range 16)))
      = map (\<lambda>i. SpiWrite [i, 0x13, 0, 0, 0]) (py_range 16)"
    using transfers_writes [of "\<lambda>i. i" "\<lambda>i. 0x13" "py_range 16"] by (simp add: frame)
  finally have tr: "transfers (trace (snd (reset_cpu w)))
      = transfers (trace w) @ map (\<lambda>i. SpiWrite [i, 0x13, 0, 0, 0]) (py_range 16)"
    by simp
  have len: "length (map (\<lambda>i. SpiWrite [i, 0x13, 0, 0, 0]) (py_range 16)) = 16"
    by (simp add: py_range_def)
  show ?thesis
    by (intro conjI reset_cpu_eq py_range_16 tr len)
qed

subsection \<open>The throughput check\<close>

lemma and_mask32: "(k::int) AND 0xFFFFFFFF = k mod 4294967296"
proof -
  have "k AND 0xFFFFFFFF = k AND mask 32" by (simp add: mask_eq_exp_minus_1)
  also have "\<dots> = take_bit 32 k" by (simp add: take_bit_eq_mask)
  also have "\<dots> = k mod 4294967296" by (simp add: take_bit_eq_mod)
  finally show ?thesis .
qed

lemma write_events_mod: "write_events a (x mod 4294967296) = write_events a x"
  by (simp add: write_events_def frame_mod)

lemma ticks_ms_eq: "ticks_ms w = (ticks w (nticks w), advance [] 0 1 w)"
  by (simp add: ticks_ms_def advance_def)

lemma stress_writes:
  "for_each (\<lambda>i. write_word (i mod 256) ((i * 0x01010101) AND 0xFFFFFFFF)) (py_range n) w
     = (Inr (), emits (concat (map (\<lambda>i. write_events (i mod 256) (i * 0x01010101))
          (py_range n))) w)"
proof (rule for_each_emits)
  fix i w' assume "i \<in> set (py_range n)"
  then have "0 \<le> i mod 256 \<and> i mod 256 < 256" by simp
  then show "write_word (i mod 256) ((i * 0x01010101) AND 0xFFFFFFFF) w'
      = (Inr (), emits (write_events (i mod 256) (i * 0x01010101)) w')"
    by (simp add: write_word_eq and_mask32 write_events_mod del: and_numerals)
qed

lemma stress_test_eq:
  "stress_test iterations w =
     (if iterations = 0 \<or> ticks_diff (ticks w (Suc (nticks w))) (ticks w (nticks w)) = 0
      then Inl ZeroDivisionError else Inr True,
      advance (concat (map (\<lambda>i. write_events (i mod 256) (i * 0x01010101))
        (py_range iterations))) 0 2 w)"
  by (simp add: stress_test_def ticks_ms_eq stress_writes and_then_def emits_advance
      advance_advance advance_fields)

text \<open>
  Claim C7 does not hold of the code. With 50 iterations the throughput check issues its
  50 writes, the \<open>i\<close>-th to address \<open>i mod 256 = i\<close>, whatever the clock says (lemma
  \<open>stress_test_eq\<close>); but when the two clock readings give an elapsed time of zero it then
  raises \<open>ZeroDivisionError\<close> in the rate figure, instead of returning true.
\<close>

theorem stress_test_zero_elapsed:
  "fst (stress_test 50 frozen_clock) = Inl ZeroDivisionError
   \<and> transfers (trace (snd (stress_test 50 frozen_clock)))
      = map (\<lambda>i. SpiWrite (frame (i mod 256) (i * 0x01010101))) (py_range 50)
   \<and> length (py_range 50) = 50"
proof -
  have "ticks_diff (ticks frozen_clock (Suc (nticks frozen_clock)))
      (ticks frozen_clock (nticks frozen_clock)) = 0"
    by (simp add: frozen_clock_def healthy_def ticks_diff_def TICKS_PERIOD_def)
  then have a: "fst (stress_test 50 frozen_clock) = Inl ZeroDivisionError"
    by (simp add: stress_test_eq)
  have "trace frozen_clock = []" by (simp add: frozen_clock_def healthy_def)
  then have b: "transfers (trace (snd (stress_test 50 frozen_clock)))
      = map (\<lambda>i. SpiWrite (frame (i mod 256) (i * 0x01010101))) (py_range 50)"
    using transfers_writes [of "\<lambda>i. i mod 256" "\<lambda>i. i * 0x01010101" "py_range 50"]
    by (simp add: stress_test_eq advance_fields transfers_def)
  have c: "length (py_range 50) = 50" by (simp add: py_range_def)
  show ?thesis by (intro conjI a b c)
qed

subsection \<open>The suite loop\<close>

lemma run_tests_step:
  "run_tests ((test_name, test_func) # rest) results w =
     run_tests rest (results @ [(test_name, outcome_of (test_func w))])
       (after_check test_name (test_func w))"
  by (cases "test_func w") (auto simp: outcome_of_def after_check_def split: sum.splits)

lemma run_tests_acc:
  "run_tests ts acc w = (acc @ fst (run_tests ts [] w), snd (run_tests ts [] w))"
proof (induction ts arbitrary: acc w)
  case Nil
  then show ?case by simp
next
  case (Cons t ts)
  obtain test_name test_func where t: "t = (test_name, test_func)" by (cases t)
  show ?case
    unfolding t run_tests_step
    by (subst Cons.IH, subst (2 3) Cons.IH) simp
qed

lemma run_tests_append:
  "run_tests (ts1 @ ts2) acc w =
     run_tests ts2 (fst (run_tests ts1 acc w)) (snd (run_tests ts1 acc w))"
proof (induction ts1 arbitrary: acc w)
  case Nil
  then show ?case by simp
next
  case (Cons t ts1)
  obtain test_name test_func where t: "t = (test_name, test_func)" by (cases t)
  show ?case
    by (simp add: t run_tests_step Cons.IH del: run_tests.simps(2))
qed

lemma run_tests_names: "map fst (fst (run_tests ts [] w)) = map fst ts"
proof (induction ts arbitrary: w)
  case Nil
  then show ?case by simp
next
  case (Cons t ts)
  obtain test_name test_func where t: "t = (test_name, test_func)" by (cases t)
  show ?case
    unfolding t run_tests_step
    by (subst run_tests_acc) (simp add: Cons.IH)
qed

lemma run_tests_length: "length (fst (run_tests ts [] w)) = length ts"
  using run_tests_names [of ts w] by (metis length_map)

lemma run_tests_take_Suc:
  assumes "i < length ts"
  shows "run_tests (take (Suc i) ts) [] w =
     (fst (run_tests (take i ts) [] w)
        @ [(fst (ts ! i), outcome_of (snd (ts ! i) (snd (run_tests (take i ts) [] w))))],
      after_check (fst (ts ! i)) (snd (ts ! i) (snd (run_tests (take i ts) [] w))))"
proof -
  obtain test_name test_func where t: "ts ! i = (test_name, test_func)" by (cases "ts ! i")
  have "take (Suc i) ts = take i ts @ [(test_name, test_func)]"
    using assms by (simp add: take_Suc_conv_app_nth t)
  then show ?thesis
    by (simp add: run_tests_append run_tests_step t del: run_tests.simps(2))
qed

lemma run_tests_nth:
  assumes "i < length ts"
  shows "fst (run_tests ts [] w) ! i =
     (fst (ts ! i), outcome_of (snd (ts ! i) (snd (run_tests (take i ts) [] w))))"
proof -
  have "ts = take (Suc i) ts @ drop (Suc i) ts" by simp
  then have "run_tests ts [] w =
      run_tests (drop (Suc i) ts) (fst (run_tests (take (Suc i) ts) [] w))
        (snd (run_tests (take (Suc i) ts) [] w))"
    using run_tests_append [of "take (Suc i) ts" "drop (Suc i) ts" "[]" w] by simp
  then have "fst (run_tests ts [] w) =
      fst (run_tests (take (Suc i) ts) [] w)
        @ fst (run_tests (drop (Suc i) ts) [] (snd (run_tests (take (Suc i) ts) [] w)))"
    by (subst (asm) run_tests_acc) simp
  moreover have "length (fst (run_tests (take i ts) [] w)) = i"
    using assms by (simp add: run_tests_length)
  ultimately show ?thesis
    using assms by (simp add: run_tests_take_Suc nth_append)
qed

subsection \<open>The bus transfers of the registered checks\<close>

lemma and_then_Inr: "and_then (Inr x, w) k = k x w"
  by (simp add: and_then_def)

lemma test_memory_write_eq:
  "test_memory_write w =
     (Inr True, emits (concat (map (\<lambda>(a, d). write_events a d @ [SleepMs 20]) test_data)) w)"
proof -
  have "for_each
      (\<lambda>(addr, data) w. and_then (write_word addr data w) (\<lambda>u w1. (Inr (), sleep_ms 20 w1)))
      test_data w
    = (Inr (), emits (concat (map (\<lambda>(a, d). write_events a d @ [SleepMs 20]) test_data)) w)"
  proof (rule for_each_emits)
    fix p w' assume mem: "p \<in> set test_data"
    obtain a d where p: "p = (a, d)" by (cases p)
    from mem have "0 \<le> a \<and> a < 256" by (auto simp: p test_data_def)
    then show "(case p of (addr, data) \<Rightarrow> \<lambda>w. and_then (write_word addr data w)
          (\<lambda>u w1. (Inr (), sleep_ms 20 w1))) w'
        = (Inr (), emits (case p of (a, d) \<Rightarrow> write_events a d @ [SleepMs 20]) w')"
      by (simp add: p write_word_eq and_then_Inr sleep_ms_def emit_emits emits_emits)
  qed
  then show ?thesis
    by (simp add: test_memory_write_def and_then_Inr)
qed

lemma test_cpu_bootstrap_eq: "test_cpu_bootstrap w = (Inr True, emits [SleepMs 500] w)"
  by (simp add: test_cpu_bootstrap_def sleep_ms_def emit_emits)

lemma test_custom_program_simple_eq:
  "test_custom_program_simple w =
     (Inr True, emits (concat (map (\<lambda>(i, x). write_events (0 + int i) x)
        (enumerate 0 simple_program)) @ [SleepMs 100]) w)"
proof -
  have "0 + int (length simple_program) \<le> 256" by (simp add: simple_program_def)
  then show ?thesis
    by (simp add: test_custom_program_simple_def load_in_range and_then_Inr sleep_ms_def
        emit_emits emits_emits del: add_0 add.left_neutral)
qed

lemma test_custom_program_loop_eq:
  "test_custom_program_loop w =
     (Inr True, emits (concat (map (\<lambda>(i, x). write_events (0 + int i) x)
        (enumerate 0 loop_program)) @ [SleepMs 200]) w)"
proof -
  have "0 + int (length loop_program) \<le> 256" by (simp add: loop_program_def)
  then show ?thesis
    by (simp add: test_custom_program_loop_def load_in_range and_then_Inr sleep_ms_def
        emit_emits emits_emits del: add_0 add.left_neutral)
qed

lemma test_data_memory_write_eq:
  "test_data_memory_write w =
     (Inr True, emits (concat (map (\<lambda>i. write_events (100 + i) (0x11111111 * (i + 1)))
        (py_range 16))) w)"
proof -
  have "for_each (\<lambda>i. write_word (100 + i) ((0x11111111 * (i + 1)) AND 0xFFFFFFFF))
      (py_range 16) w
    = (Inr (), emits (concat (map (\<lambda>i. write_events (100 + i) (0x11111111 * (i + 1)))
        (py_range 16))) w)"
  proof (rule for_each_emits)
    fix i w' assume "i \<in> set (py_range 16)"
    then have "0 \<le> 100 + i \<and> 100 + i < 256" by (auto dest: set_py_range)
    then show "write_word (100 + i) ((0x11111111 * (i + 1)) AND 0xFFFFFFFF) w'
        = (Inr (), emits (write_events (100 + i) (0x11111111 * (i + 1))) w')"
      by (simp add: write_word_eq and_mask32 write_events_mod del: and_numerals)
  qed
  then show ?thesis
    by (simp add: test_data_memory_write_def and_then_Inr)
qed

lemma transfers_after_check:
  "transfers (trace (after_check test_name r)) = transfers (trace (snd r))"
  by (cases r)
    (auto simp: after_check_def sleep_ms_def emit_def print_error_def transfers_def
      split: sum.splits)

lemma run_tests_transfers:
  assumes "list_all2 (\<lambda>(test_name, test_func) es.
      \<forall>w. transfers (trace (snd (test_func w))) = transfers (trace w) @ es) ts ess"
  shows "transfers (trace (snd (run_tests ts acc w))) = transfers (trace w) @ concat ess"
  using assms
proof (induction ts ess arbitrary: acc w rule: list_all2_induct)
  case Nil
  then show ?case by simp
next
  case (Cons t ts es ess)
  obtain test_name test_func where t: "t = (test_name, test_func)" by (cases t)
  from Cons.hyps(1) have "transfers (trace (snd (test_func w))) = transfers (trace w) @ es"
    by (simp add: t)
  then show ?case
    unfolding t run_tests_step by (simp add: Cons.IH transfers_after_check)
qed

lemma transfers_concat_map:
  "transfers (concat (map ev xs)) = concat (map (\<lambda>x. transfers (ev x)) xs)"
  by (induction xs) (simp_all add: transfers_def)

lemma transfers_emits:
  "transfers (trace (emits es w)) = transfers (trace w) @ transfers es"
  by (simp add: trace_emits transfers_append)

lemma concat_map_singleton: "concat (map (\<lambda>x. [f x]) xs) = map f xs"
  by (induction xs) simp_all

lemma suite_checks_transfers:
  "list_all2 (\<lambda>(test_name, test_func) es.
      \<forall>w. transfers (trace (snd (test_func w))) = transfers (trace w) @ es)
     tests check_transfers"
proof -
  have 1: "transfers (trace (snd (test_basic_communication w)))
      = transfers (trace w) @ replicate 5 (SpiRead 1)" for w
    by (simp only: test_basic_communication_eq snd_conv advance_fields transfers_append
        transfers_reads)
  have 2: "transfers (trace (snd (test_memory_write w)))
      = transfers (trace w) @ map (\<lambda>(a, d). SpiWrite (frame a d)) test_data" for w
  proof -
    have "transfers (case p of (a, d) \<Rightarrow> write_events a d @ [SleepMs 20])
        = [case p of (a, d) \<Rightarrow> SpiWrite (frame a d)]" for p
      by (cases p) (simp add: transfers_def write_events_def)
    then show ?thesis
      by (simp add: test_memory_write_eq transfers_emits transfers_concat_map
          concat_map_singleton)
  qed
  have 3: "transfers (trace (snd (test_cpu_bootstrap w))) = transfers (trace w) @ []" for w
    by (simp add: test_cpu_bootstrap_eq transfers_emits) (simp add: transfers_def)
  have prog: "transfers (concat (map (\<lambda>(i, x). write_events (0 + int i) x)
      (enumerate 0 program)) @ [SleepMs n]) = program_writes program" for program n
    using transfers_concat_writes [of "\<lambda>i. 0 + int i" "enumerate 0 program"]
    by (simp add: transfers_append program_writes_def) (simp add: transfers_def)
  have 4: "transfers (trace (snd (test_custom_program_simple w)))
      = transfers (trace w) @ program_writes simple_program" for w
    by (simp only: test_custom_program_simple_eq snd_conv transfers_emits prog)
  have 5: "transfers (trace (snd (test_custom_program_loop w)))
      = transfers (trace w) @ program_writes loop_program" for w
    by (simp only: test_custom_program_loop_eq snd_conv transfers_emits prog)
  have 6: "transfers (trace (snd (test_data_memory_write w)))
      = transfers (trace w)
        @ map (\<lambda>i. SpiWrite (frame (100 + i) (0x11111111 * (i + 1)))) (py_range 16)" for w
    by (simp only: test_data_memory_write_eq snd_conv transfers_emits transfers_writes)
  have 7: "transfers (trace (snd (stress_test 50 w)))
      = transfers (trace w)
        @ map (\<lambda>i. SpiWrite (frame (i mod 256) (i * 0x01010101))) (py_range 50)" for w
    by (simp only: stress_test_eq snd_conv advance_fields transfers_append transfers_writes)
  show ?thesis
    unfolding tests_def check_transfers_def
    by (simp only: list_all2_Cons list_all2_Nil prod.case 1 2 3 4 5 6 7) simp
qed

subsection \<open>The report\<close>

lemma passed_count_eq: "passed_count results = length (filter snd results)"
proof -
  have "(\<lambda>(n, result). result) = (snd :: string \<times> bool \<Rightarrow> bool)" by auto
  moreover have "sum_list (map (\<lambda>(n, result). 1) xs) = length xs" for xs :: "(string \<times> bool) list"
    by (induction xs) auto
  ultimately show ?thesis by (simp add: passed_count_def)
qed

text \<open>
  Claim C4. The value that \<^verbatim>\<open>run_all_tests\<close> returns is true if and only if the
  number of passing outcomes equals the number of recorded outcomes. For every sequence of
  outcomes the passed count is the number of true outcomes and never exceeds the total, so
  the verdict is false exactly when the passed count is smaller, and true exactly when
  every outcome is true.
\<close>

theorem overall_success_iff:
  "fst (run_all_tests w)
      = (passed_count (fst (run_tests tests [] w)) = total_count (fst (run_tests tests [] w)))
   \<and> overall_success results = (passed_count results = total_count results)
   \<and> passed_count results \<le> total_count results
   \<and> (\<not> overall_success results) = (passed_count results < total_count results)
   \<and> passed_count results = length (filter snd results)
   \<and> total_count results = length results
   \<and> overall_success results = list_all snd results"
proof -
  have a: "fst (run_all_tests w)
      = (passed_count (fst (run_tests tests [] w)) = total_count (fst (run_tests tests [] w)))"
    by (simp add: run_all_tests_def overall_success_def split: prod.splits)
  have le: "passed_count results \<le> total_count results"
    by (simp add: passed_count_eq total_count_def)
  have all: "overall_success results = list_all snd results"
    by (simp add: overall_success_def passed_count_eq total_count_def all_match_iff)
  have lt: "(\<not> overall_success results) = (passed_count results < total_count results)"
    using le by (auto simp: overall_success_def)
  have def: "overall_success results = (passed_count results = total_count results)"
    by (simp add: overall_success_def)
  have tot: "total_count results = length results"
    by (simp add: total_count_def)
  show ?thesis
    by (intro conjI a def le lt passed_count_eq tot all)
qed

text \<open>
  Claim C2. Whatever the checks do, the suite loop records one outcome per registered
  check, under the check's name and in the order of registration. Check \<open>i\<close> is run in
  the world that the checks before it left (with the pause or the error line that
  followed each), whether they returned true, returned false or raised; what is recorded
  for it is its result, or false when it raised. For the seven registered checks the
  total count is therefore always 7, under the seven names in their fixed order, and in
  every world the bus sees the 88 transfers of the seven checks, check after check.
\<close>

theorem suite_runs_every_check:
  "length (fst (run_tests ts [] w)) = length ts
   \<and> map fst (fst (run_tests ts [] w)) = map fst ts
   \<and> (\<forall>i<length ts.
        fst (run_tests ts [] w) ! i
          = (fst (ts ! i), outcome_of (snd (ts ! i) (snd (run_tests (take i ts) [] w))))
        \<and> snd (run_tests (take (Suc i) ts) [] w)
          = after_check (fst (ts ! i)) (snd (ts ! i) (snd (run_tests (take i ts) [] w))))
   \<and> outcome_of (Inl e, w1) = False
   \<and> total_count (fst (run_tests tests [] w)) = 7
   \<and> map fst (fst (run_tests tests [] w))
      = [''Basic SPI Communication'', ''Memory Write (32-bit)'', ''CPU Bootstrap Check'',
         ''Simple Custom Program'', ''Counting Loop Program'', ''Data Memory Write'',
         ''Stress Test'']
   \<and> transfers (trace (snd (run_tests tests [] w)))
      = transfers (trace w) @ concat check_transfers
   \<and> length (concat check_transfers) = 88"
proof -
  have bus: "transfers (trace (snd (run_tests tests [] w)))
      = transfers (trace w) @ concat check_transfers"
    using suite_checks_transfers by (rule run_tests_transfers)
  have n88: "length (concat check_transfers) = 88"
    by (simp add: check_transfers_def test_data_def program_writes_def simple_program_def
        loop_program_def py_range_def)
  have "length tests = 7" by (simp add: tests_def)
  then have seven: "total_count (fst (run_tests tests [] w)) = 7"
    by (simp add: total_count_def run_tests_length)
  have names: "map fst (fst (run_tests tests [] w))
      = [''Basic SPI Communication'', ''Memory Write (32-bit)'', ''CPU Bootstrap Check'',
         ''Simple Custom Program'', ''Counting Loop Program'', ''Data Memory Write'',
         ''Stress Test'']"
    unfolding run_tests_names by (simp add: tests_def)
  have raised: "outcome_of (Inl e, w1) = False"
    by (simp add: outcome_of_def)
  have each: "\<forall>i<length ts.
      fst (run_tests ts [] w) ! i
        = (fst (ts ! i), outcome_of (snd (ts ! i) (snd (run_tests (take i ts) [] w))))
      \<and> snd (run_tests (take (Suc i) ts) [] w)
        = after_check (fst (ts ! i)) (snd (ts ! i) (snd (run_tests (take i ts) [] w)))"
    by (simp add: run_tests_nth run_tests_take_Suc)
  show ?thesis
    by (intro conjI run_tests_length run_tests_names each raised seven names bus n88)
qed

theorem suite_runs_every_check_witness:
  "fst (run_tests
      [(''a'', \<lambda>w. (Inl (OtherError ''boom''), w)),
       (''b'', \<lambda>w. (Inr False, w)),
       (''c'', \<lambda>w. (Inr True, w))] [] healthy)
     = [(''a'', False), (''b'', False), (''c'', True)]"
  using suite_runs_every_check [of
      "[(''a'', \<lambda>w. (Inl (OtherError ''boom''), w)),
        (''b'', \<lambda>w. (Inr False, w)),
        (''c'', \<lambda>w. (Inr True, w))]" healthy]
  by simp

text \<open>
  Claim C5, as amended. When a check raises an error during the suite run, the outcome
  recorded for it is the pair of its name and false, the same record as for a check that
  returned false: the outcome has no field for a description. The error's text goes to
  the console only, in the line printed when the error is caught.
\<close>

theorem raised_check_recorded_false:
  assumes "i < length ts"
    and "snd (ts ! i) (snd (run_tests (take i ts) [] w)) = (Inl e, w1)"
  shows "fst (run_tests ts [] w) ! i = (fst (ts ! i), False)
    \<and> snd (run_tests (take (Suc i) ts) [] w) = print_error (fst (ts ! i)) e w1
    \<and> errlog (print_error (fst (ts ! i)) e w1) = errlog w1 @ [(fst (ts ! i), e)]"
  using assms
  by (simp add: run_tests_nth run_tests_take_Suc outcome_of_def after_check_def print_error_def)

theorem raised_check_recorded_false_witness:
  "fst (run_tests
      [(''a'', \<lambda>w. (Inr True, w)), (''b'', \<lambda>w. (Inl (OtherError ''bus timeout''), w))]
      [] healthy) ! 1 = (''b'', False)
   \<and> errlog (snd (run_tests
      [(''a'', \<lambda>w. (Inr True, w)), (''b'', \<lambda>w. (Inl (OtherError ''bus timeout''), w))]
      [] healthy)) = [(''b'', OtherError ''bus timeout'')]"
  using raised_check_recorded_false [of 1
      "[(''a'', \<lambda>w. (Inr True, w)), (''b'', \<lambda>w. (Inl (OtherError ''bus timeout''), w))]"
      healthy "OtherError ''bus timeout''" "sleep_ms 300 healthy"]
  by (simp add: print_error_def sleep_ms_def emit_def healthy_def)

text \<open>
  Against claim C5 as it was stated, the recorded outcome does not carry the error: two
  checks that raise different errors, and one that merely returns false, leave the same
  record.
\<close>

theorem error_text_not_recorded_counterexample:
  "fst (run_tests [(''t'', \<lambda>w. (Inl (OtherError ''bus timeout''), w))] [] healthy)
     = [(''t'', False)]
   \<and> fst (run_tests [(''t'', \<lambda>w. (Inl (OtherError ''bus timeout''), w))] [] healthy)
     = fst (run_tests [(''t'', \<lambda>w. (Inl ZeroDivisionError, w))] [] healthy)
   \<and> fst (run_tests [(''t'', \<lambda>w. (Inl (OtherError ''bus timeout''), w))] [] healthy)
     = fst (run_tests [(''t'', \<lambda>w. (Inr False, w))] [] healthy)
   \<and> OtherError ''bus timeout'' \<noteq> ZeroDivisionError"
  by simp

end
